theory Spec2Isabelle
  imports Main
begin

section \<open>Exceptions as values\<close>

text \<open>
  Every exception the two source files raise, catch or let through is a value of
  \<open>error\<close>; a function that may raise returns \<open>error + 'a\<close> with \<open>Inl\<close> for the
  exception.
  \<^item> \<open>NotFound\<close> is \<^verbatim>\<open>keystoneauth1.exceptions.http.NotFound\<close>;
  \<^item> \<open>Invalid msg\<close> is \<^verbatim>\<open>watcher.common.exception.Invalid(message=msg)\<close>;
  \<^item> \<open>ComputeNodeNotFound\<close> is \<^verbatim>\<open>watcher.common.exception.ComputeNodeNotFound\<close>;
  \<^item> \<open>AttributeError\<close>, \<open>IndexError\<close>, \<open>KeyError\<close> are Python's built-in ones;
  \<^item> \<open>OtherError\<close> stands for any other exception of a collaborator.
\<close>

datatype error =
    NotFound
  | Invalid string
  | ComputeNodeNotFound
  | AttributeError
  | IndexError
  | KeyError
  | OtherError string

section \<open>watcher/common/keystone\_helper.py\<close>

text \<open>
  The keystone client is a collaborator: it is a record of the calls the helper makes.
  \<open>roles_get ks x\<close> is \<^verbatim>\<open>self.keystone.roles.get(x)\<close> and \<open>roles_list ks x\<close> is
  \<^verbatim>\<open>self.keystone.roles.list(name=x)\<close>; either may raise. Every helper also returns
  the calls it made on the client, in order, so that a statement can say which calls
  were made.
\<close>

record entity =
  ent_id :: string
  ent_name :: string

datatype ks_call =
    RolesGet string | RolesList string
  | UsersGet string | UsersList string
  | ProjectsGet string | ProjectsList string
  | DomainsGet string | DomainsList string
  | UsersDelete entity

record keystone =
  roles_get :: "string \<Rightarrow> error + entity"
  roles_list :: "string \<Rightarrow> error + entity list"
  users_get :: "string \<Rightarrow> error + entity"
  users_list :: "string \<Rightarrow> error + entity list"
  projects_get :: "string \<Rightarrow> error + entity"
  projects_list :: "string \<Rightarrow> error + entity list"
  domains_get :: "string \<Rightarrow> error + entity"
  domains_list :: "string \<Rightarrow> error + entity list"
  users_delete :: "entity \<Rightarrow> error + unit"

definition get_role :: "keystone \<Rightarrow> string \<Rightarrow> (error + entity) \<times> ks_call list" where
  "get_role ks name_or_id =
     (case roles_get ks name_or_id of
        Inr role \<Rightarrow> (Inr role, [RolesGet name_or_id])
      | Inl e \<Rightarrow>
          if e = NotFound then
            (case roles_list ks name_or_id of
               Inl e' \<Rightarrow> (Inl e', [RolesGet name_or_id, RolesList name_or_id])
             | Inr roles \<Rightarrow>
                 (if length roles = 0 then
                    Inl (Invalid (''Role not Found: '' @ name_or_id))
                  else if length roles > 1 then
                    Inl (Invalid (''Role name seems ambiguous: '' @ name_or_id))
                  else Inr (hd roles),
                  [RolesGet name_or_id, RolesList name_or_id]))
          else (Inl e, [RolesGet name_or_id]))"

definition get_user :: "keystone \<Rightarrow> string \<Rightarrow> (error + entity) \<times> ks_call list" where
  "get_user ks name_or_id =
     (case users_get ks name_or_id of
        Inr user \<Rightarrow> (Inr user, [UsersGet name_or_id])
      | Inl e \<Rightarrow>
          if e = NotFound then
            (case users_list ks name_or_id of
               Inl e' \<Rightarrow> (Inl e', [UsersGet name_or_id, UsersList name_or_id])
             | Inr users \<Rightarrow>
                 (if length users = 0 then
                    Inl (Invalid (''User not Found: '' @ name_or_id))
                  else if length users > 1 then
                    Inl (Invalid (''User name seems ambiguous: '' @ name_or_id))
                  else Inr (hd users),
                  [UsersGet name_or_id, UsersList name_or_id]))
          else (Inl e, [UsersGet name_or_id]))"

definition get_project :: "keystone \<Rightarrow> string \<Rightarrow> (error + entity) \<times> ks_call list" where
  "get_project ks name_or_id =
     (case projects_get ks name_or_id of
        Inr project \<Rightarrow> (Inr project, [ProjectsGet name_or_id])
      | Inl e \<Rightarrow>
          if e = NotFound then
            (case projects_list ks name_or_id of
               Inl e' \<Rightarrow> (Inl e', [ProjectsGet name_or_id, ProjectsList name_or_id])
             | Inr projects \<Rightarrow>
                 (if length projects = 0 then
                    Inl (Invalid (''Project not Found: '' @ name_or_id))
                  else if length projects > 1 then
                    Inl (Invalid (''Project name seems ambiguous: '' @ name_or_id))
                  else Inr (hd projects),
                  [ProjectsGet name_or_id, ProjectsList name_or_id]))
          else (Inl e, [ProjectsGet name_or_id]))"

definition get_domain :: "keystone \<Rightarrow> string \<Rightarrow> (error + entity) \<times> ks_call list" where
  "get_domain ks name_or_id =
     (case domains_get ks name_or_id of
        Inr domain \<Rightarrow> (Inr domain, [DomainsGet name_or_id])
      | Inl e \<Rightarrow>
          if e = NotFound then
            (case domains_list ks name_or_id of
               Inl e' \<Rightarrow> (Inl e', [DomainsGet name_or_id, DomainsList name_or_id])
             | Inr domains \<Rightarrow>
                 (if length domains = 0 then
                    Inl (Invalid (''Domain not Found: '' @ name_or_id))
                  else if length domains > 1 then
                    Inl (Invalid (''Domain name seems ambiguous: '' @ name_or_id))
                  else Inr (hd domains),
                  [DomainsGet name_or_id, DomainsList name_or_id]))
          else (Inl e, [DomainsGet name_or_id]))"

text \<open>
  \<^verbatim>\<open>except exception.Invalid: pass\<close> of \<open>delete_user\<close>: the handler covers the whole
  \<^verbatim>\<open>try\<close> block, the lookup and the delete call.
\<close>

fun is_Invalid :: "error \<Rightarrow> bool" where
  "is_Invalid (Invalid msg) = True"
| "is_Invalid e = False"

definition delete_user :: "keystone \<Rightarrow> string \<Rightarrow> (error + unit) \<times> ks_call list" where
  "delete_user ks user =
     (case get_user ks user of
        (Inl e, calls) \<Rightarrow> (if is_Invalid e then Inr () else Inl e, calls)
      | (Inr u, calls) \<Rightarrow>
          (case users_delete ks u of
             Inl e \<Rightarrow> (if is_Invalid e then Inr () else Inl e, calls @ [UsersDelete u])
           | Inr _ \<Rightarrow> (Inr (), calls @ [UsersDelete u])))"

text \<open>
  The contract of a name-or-id lookup, in the words of the specification: \<open>get\<close> and
  \<open>lst\<close> are the client's get and list calls, \<open>GetC\<close> and \<open>ListC\<close> their entries in the
  call trace, \<open>kind\<close> the word the messages start with.
  \<^item> a lookup by id that succeeds returns that entity, and only the get call is made;
  \<^item> an exception other than \<open>NotFound\<close> is passed on, and only the get call is made;
  \<^item> on \<open>NotFound\<close> the names are listed; more than one match raises the ambiguity
    error, no match raises the not-found error, exactly one match is returned.
  The helper raises \<^verbatim>\<open>exception.Invalid\<close> for both errors; the message tells them apart.
\<close>

definition lookup_contract ::
  "string \<Rightarrow> (string \<Rightarrow> error + entity) \<Rightarrow> (string \<Rightarrow> error + entity list) \<Rightarrow>
   (string \<Rightarrow> ks_call) \<Rightarrow> (string \<Rightarrow> ks_call) \<Rightarrow>
   (string \<Rightarrow> (error + entity) \<times> ks_call list) \<Rightarrow> bool" where
  "lookup_contract kind get lst GetC ListC lookup \<longleftrightarrow>
     (\<forall>n.
        (\<forall>r. get n = Inr r \<longrightarrow> lookup n = (Inr r, [GetC n])) \<and>
        (\<forall>e. get n = Inl e \<and> e \<noteq> NotFound \<longrightarrow> lookup n = (Inl e, [GetC n])) \<and>
        (get n = Inl NotFound \<longrightarrow>
           snd (lookup n) = [GetC n, ListC n] \<and>
           (\<forall>e. lst n = Inl e \<longrightarrow> fst (lookup n) = Inl e) \<and>
           (\<forall>rs. lst n = Inr rs \<longrightarrow>
              (1 < length rs \<longrightarrow>
                 fst (lookup n) = Inl (Invalid (kind @ '' name seems ambiguous: '' @ n))) \<and>
              (rs = [] \<longrightarrow>
                 fst (lookup n) = Inl (Invalid (kind @ '' not Found: '' @ n))) \<and>
              (\<forall>r. rs = [r] \<longrightarrow> fst (lookup n) = Inr r))))"

text \<open>A keystone with two roles named operator, one user known by id and one by name.\<close>

definition ks_example :: keystone where
  "ks_example =
     \<lparr> roles_get = (\<lambda>x. Inl NotFound),
       roles_list = (\<lambda>x. if x = ''operator''
          then Inr [\<lparr>ent_id = ''r1'', ent_name = ''operator''\<rparr>,
                    \<lparr>ent_id = ''r2'', ent_name = ''operator''\<rparr>]
          else Inr []),
       users_get = (\<lambda>x. if x = ''u1'' then Inr \<lparr>ent_id = ''u1'', ent_name = ''alice''\<rparr>
          else Inl NotFound),
       users_list = (\<lambda>x. if x = ''alice'' then Inr [\<lparr>ent_id = ''u1'', ent_name = ''alice''\<rparr>]
          else Inr []),
       projects_get = (\<lambda>x. Inl (OtherError ''Unauthorized'')),
       projects_list = (\<lambda>x. Inr []),
       domains_get = (\<lambda>x. Inl NotFound),
       domains_list = (\<lambda>x. Inr []),
       users_delete = (\<lambda>u. Inr ()) \<rparr>"

section \<open>watcher/decision\_engine/model/collector/nova.py\<close>

subsection \<open>The audit scope\<close>

text \<open>
  An entry of a \<^verbatim>\<open>host_aggregates\<close> or \<^verbatim>\<open>availability_zones\<close> list is a dict whose keys
  are among \<^verbatim>\<open>id\<close> and \<^verbatim>\<open>name\<close> (the schema of the collector allows no other key, and
  requires none); a key that is missing is \<open>None\<close>. An id is an integer or the string
  \<^verbatim>\<open>"*"\<close>. Two such dicts are equal in Python exactly when the two records are.

  A role is one dict of the compute scope, such as \<^verbatim>\<open>{"host_aggregates": [...]}\<close>. It
  is an association list in the order the dict iterates, so that \<^verbatim>\<open>role.keys()[0]\<close> and
  \<^verbatim>\<open>role.values()[0]\<close> are the first pair. The expression is Python 2's, where
  \<^verbatim>\<open>keys()\<close> is a list; the model follows it. The audit scope is a list of dicts such
  as \<^verbatim>\<open>[{"compute": [role, ...]}, ...]\<close>; the stored scope \<^verbatim>\<open>self.model_scope\<close> is a dict
  from a role key to a list of entries.
\<close>

datatype id_value = IntId int | StrId string

record scope_item =
  item_id :: "id_value option"
  item_name :: "string option"

type_synonym role = "(string \<times> scope_item list) list"

type_synonym audit_scope = "(string \<times> role list) list list"

type_synonym stored_scope = "(string \<times> scope_item list) list"

subsection \<open>Records of the compute service\<close>

text \<open>
  The objects the nova client returns, with the attributes the collector reads.
  \<open>servers\<close> is \<^verbatim>\<open>getattr(node, "servers", None)\<close>, each server given by its
  \<^verbatim>\<open>uuid\<close>; \<open>srv_host\<close> is the attribute \<^verbatim>\<open>OS-EXT-SRV-ATTR:host\<close>, whose value is
  \<open>None\<close> for an instance that is on no host.
\<close>

record aggregate =
  agg_id :: int
  agg_name :: string
  agg_hosts :: "string list"

record service =
  svc_host :: string
  svc_zone :: string

record hypervisor =
  hyp_id :: int
  service_host :: string
  service_disabled_reason :: "string option"
  hypervisor_hostname :: string
  memory_mb :: int
  free_disk_gb :: int
  local_gb :: int
  hyp_vcpus :: int
  hyp_state :: string
  hyp_status :: string
  servers :: "string list option"

record server =
  srv_id :: string
  human_id :: string
  flavor_ram :: int
  flavor_disk :: int
  flavor_vcpus :: int
  vm_state :: string
  metadata :: "(string \<times> string) list"
  tenant_id :: string
  locked :: bool
  srv_host :: "string option"

subsection \<open>The cluster data model\<close>

text \<open>The elements \<^verbatim>\<open>element.ComputeNode\<close> and \<^verbatim>\<open>element.Instance\<close>.\<close>

record compute_node =
  cn_id :: int
  cn_uuid :: string
  cn_hostname :: string
  cn_memory :: int
  cn_disk :: int
  cn_disk_capacity :: int
  cn_vcpus :: int
  cn_state :: string
  cn_status :: string
  cn_disabled_reason :: "string option"

record instance_node =
  in_uuid :: string
  in_human_id :: string
  in_memory :: int
  in_disk :: int
  in_disk_capacity :: int
  in_vcpus :: int
  in_state :: string
  in_metadata :: "(string \<times> string) list"
  in_project_id :: string
  in_locked :: bool

text \<open>
  Modelled from the spec: the class \<^verbatim>\<open>model_root.ModelRoot\<close>, which is not among the
  source files. The specification has a ClusterModel own the Host entities, the Instance
  entities and the many-to-one relation from an instance to the host it runs on; an
  entity is found by its identifier, a host that is not found is signalled, and mapping
  an instance again overwrites its relation. \<open>oid\<close> is the identity of the object: two
  references are to the same object exactly when the \<open>oid\<close>s are equal.
\<close>

record model_root =
  oid :: nat
  nodes :: "string \<rightharpoonup> compute_node"
  instances :: "string \<rightharpoonup> instance_node"
  mapping :: "string \<rightharpoonup> string"

definition ModelRoot :: "nat \<Rightarrow> model_root" where
  "ModelRoot new_oid =
     \<lparr> oid = new_oid, nodes = Map.empty, instances = Map.empty, mapping = Map.empty \<rparr>"

definition add_node :: "compute_node \<Rightarrow> model_root \<Rightarrow> model_root" where
  "add_node node m = m \<lparr> nodes := (nodes m)(cn_uuid node \<mapsto> node) \<rparr>"

definition add_instance :: "instance_node \<Rightarrow> model_root \<Rightarrow> model_root" where
  "add_instance inst m = m \<lparr> instances := (instances m)(in_uuid inst \<mapsto> inst) \<rparr>"

definition get_node_by_uuid :: "model_root \<Rightarrow> string option \<Rightarrow> error + compute_node" where
  "get_node_by_uuid m uuid =
     (case uuid of
        None \<Rightarrow> Inl ComputeNodeNotFound
      | Some u \<Rightarrow> (case nodes m u of None \<Rightarrow> Inl ComputeNodeNotFound | Some node \<Rightarrow> Inr node))"

definition map_instance :: "instance_node \<Rightarrow> compute_node \<Rightarrow> model_root \<Rightarrow> model_root" where
  "map_instance inst node m = m \<lparr> mapping := (mapping m)(in_uuid inst \<mapsto> cn_uuid node) \<rparr>"

subsection \<open>The collaborators and the builder\<close>

text \<open>
  The calls of \<^verbatim>\<open>nova_helper.NovaHelper\<close>, typed by the way the collector uses their
  results: the result of \<open>get_compute_node_by_name\<close> is tested for emptiness and indexed
  at 0, so it is a list; the result of \<open>get_compute_node_by_id\<close> is used as a hypervisor
  as it is; \<open>find_instance\<close> is called under \<^verbatim>\<open>except Exception\<close>, so \<open>None\<close> stands
  for any exception it raises. \<open>model_bool\<close> is the truth value of a \<open>ModelRoot\<close> object
  (its \<^verbatim>\<open>__bool__\<close>), which the expression \<^verbatim>\<open>self.model or model_root.ModelRoot()\<close>
  tests; the class is not among the source files, so it is a parameter.
\<close>

record env =
  get_aggregate_list :: "aggregate list"
  get_service_list :: "service list"
  get_compute_node_list :: "hypervisor list"
  get_compute_node_by_name :: "string \<Rightarrow> hypervisor list"
  get_compute_node_by_id :: "int \<Rightarrow> hypervisor"
  find_instance :: "string \<Rightarrow> server option"
  get_instance_list :: "server list"
  model_bool :: "model_root \<Rightarrow> bool"

datatype api_call =
    GetAggregateList
  | GetServiceList
  | GetComputeNodeList
  | GetComputeNodeByName string
  | GetComputeNodeById int
  | FindInstance string
  | GetInstanceList

text \<open>
  The state of a \<open>ModelBuilder\<close>: its attributes \<open>model\<close> and \<open>model_scope\<close>, the
  identity the next allocated \<open>ModelRoot\<close> gets, and the calls made on the compute
  service so far. A function that raises returns \<open>Inl\<close>; the state at the raise is not
  kept.
\<close>

record builder =
  model :: "model_root option"
  model_scope :: stored_scope
  next_oid :: nat
  calls :: "api_call list"

definition new_builder :: builder where
  "new_builder = \<lparr> model = None, model_scope = [], next_oid = 0, calls = [] \<rparr>"

definition call :: "api_call \<Rightarrow> builder \<Rightarrow> builder" where
  "call c st = st \<lparr> calls := calls st @ [c] \<rparr>"

text \<open>
  A Python set of strings is a list without repetition. Python leaves the order in
  which a set iterates open; the list keeps the order of insertion, and the statements
  below about resolved hosts hold for every order. \<open>set_update s xs\<close> is
  \<^verbatim>\<open>s.update(xs)\<close>.
\<close>

fun set_update :: "'a list \<Rightarrow> 'a list \<Rightarrow> 'a list" where
  "set_update s [] = s"
| "set_update s (x # xs) = set_update (if x \<in> set s then s else s @ [x]) xs"

text \<open>The characters of a string, as Python iterates a string: one-character strings.\<close>

definition chars_of :: "string \<Rightarrow> string list" where
  "chars_of s = map (\<lambda>c. [c]) s"

subsection \<open>Resolving the scope to hosts\<close>

fun collect_aggregates_loop ::
  "id_value list \<Rightarrow> string list \<Rightarrow> bool \<Rightarrow> aggregate list \<Rightarrow> string list \<Rightarrow> string list" where
  "collect_aggregates_loop aggregate_ids aggregate_names include_all_nodes [] nodes_acc = nodes_acc"
| "collect_aggregates_loop aggregate_ids aggregate_names include_all_nodes (a # rest) nodes_acc =
     collect_aggregates_loop aggregate_ids aggregate_names include_all_nodes rest
       (if IntId (agg_id a) \<in> set aggregate_ids \<or> agg_name a \<in> set aggregate_names \<or>
           include_all_nodes
        then set_update nodes_acc (agg_hosts a) else nodes_acc)"

definition collect_aggregates ::
  "env \<Rightarrow> scope_item list \<Rightarrow> string list \<times> builder \<Rightarrow> string list \<times> builder" where
  "collect_aggregates e host_aggregates ns =
     (let aggregate_list = get_aggregate_list e;
          aggregate_ids = List.map_filter item_id host_aggregates;
          aggregate_names = List.map_filter item_name host_aggregates;
          include_all_nodes =
            (StrId ''*'' \<in> set aggregate_ids \<or> ''*'' \<in> set aggregate_names)
      in (collect_aggregates_loop aggregate_ids aggregate_names include_all_nodes
            aggregate_list (fst ns),
          call GetAggregateList (snd ns)))"

text \<open>
  \<^verbatim>\<open>_nodes.update(service.host)\<close>: \<^verbatim>\<open>service.host\<close> is a string, and \<^verbatim>\<open>set.update\<close>
  adds the elements of its argument, so the characters of the host name are added.
  \<^verbatim>\<open>zone['name']\<close> raises \<open>KeyError\<close> for an entry with no name.
\<close>

fun collect_zones_loop ::
  "string list \<Rightarrow> bool \<Rightarrow> service list \<Rightarrow> string list \<Rightarrow> string list" where
  "collect_zones_loop zone_names include_all_nodes [] nodes_acc = nodes_acc"
| "collect_zones_loop zone_names include_all_nodes (s # rest) nodes_acc =
     collect_zones_loop zone_names include_all_nodes rest
       (if svc_zone s \<in> set zone_names \<or> include_all_nodes
        then set_update nodes_acc (chars_of (svc_host s)) else nodes_acc)"

definition collect_zones ::
  "env \<Rightarrow> scope_item list \<Rightarrow> string list \<times> builder \<Rightarrow> error + string list \<times> builder" where
  "collect_zones e availability_zones ns =
     (let service_list = get_service_list e in
      if list_all (\<lambda>zone. item_name zone \<noteq> None) availability_zones then
        (let zone_names = List.map_filter item_name availability_zones;
             include_all_nodes = (''*'' \<in> set zone_names)
         in Inr (collect_zones_loop zone_names include_all_nodes service_list (fst ns),
                 call GetServiceList (snd ns)))
      else Inl KeyError)"

subsection \<open>Building the elements\<close>

definition build_compute_node :: "hypervisor \<Rightarrow> compute_node" where
  "build_compute_node node =
     \<lparr> cn_id = hyp_id node,
       cn_uuid = service_host node,
       cn_hostname = hypervisor_hostname node,
       cn_memory = memory_mb node,
       cn_disk = free_disk_gb node,
       cn_disk_capacity = local_gb node,
       cn_vcpus = hyp_vcpus node,
       cn_state = hyp_state node,
       cn_status = hyp_status node,
       cn_disabled_reason = service_disabled_reason node \<rparr>"

definition build_instance_node :: "server \<Rightarrow> instance_node" where
  "build_instance_node inst =
     \<lparr> in_uuid = srv_id inst,
       in_human_id = human_id inst,
       in_memory = flavor_ram inst,
       in_disk = flavor_disk inst,
       in_disk_capacity = flavor_disk inst,
       in_vcpus = flavor_vcpus inst,
       in_state = vm_state inst,
       in_metadata = metadata inst,
       in_project_id = tenant_id inst,
       in_locked = locked inst \<rparr>"

text \<open>A method call on \<^verbatim>\<open>self.model\<close> while it is \<open>None\<close> raises \<open>AttributeError\<close>.\<close>

definition add_compute_node :: "env \<Rightarrow> hypervisor \<Rightarrow> builder \<Rightarrow> error + builder" where
  "add_compute_node e node st =
     (let node_info = get_compute_node_by_id e (hyp_id node);
          st1 = call (GetComputeNodeById (hyp_id node)) st;
          compute_node = build_compute_node node_info
      in case model st1 of
           None \<Rightarrow> Inl AttributeError
         | Some m \<Rightarrow> Inr (st1 \<lparr> model := Some (add_node compute_node m) \<rparr>))"

fun add_instance_node_loop :: "env \<Rightarrow> string list \<Rightarrow> builder \<Rightarrow> error + builder" where
  "add_instance_node_loop e [] st = Inr st"
| "add_instance_node_loop e (uuid # rest) st =
     (let st1 = call (FindInstance uuid) st in
      case find_instance e uuid of
        None \<Rightarrow> add_instance_node_loop e rest st1
      | Some inst \<Rightarrow>
          (case model st1 of
             None \<Rightarrow> Inl AttributeError
           | Some m \<Rightarrow>
               (let inst_elem = build_instance_node inst;
                    m1 = add_instance inst_elem m;
                    cnode_uuid = srv_host inst
                in case get_node_by_uuid m1 cnode_uuid of
                     Inl err \<Rightarrow> Inl err
                   | Inr compute_node \<Rightarrow>
                       add_instance_node_loop e rest
                         (st1 \<lparr> model := Some (map_instance inst_elem compute_node m1) \<rparr>))))"

definition add_instance_node :: "env \<Rightarrow> hypervisor \<Rightarrow> builder \<Rightarrow> error + builder" where
  "add_instance_node e node st =
     (case servers node of
        None \<Rightarrow> Inr st
      | Some instance_uuids \<Rightarrow> add_instance_node_loop e instance_uuids st)"

text \<open>
  \<open>_add_virtual_servers\<close>: the loop over every instance of the compute service. It is
  the body of \<open>_add_virtual_layer\<close>; \<open>execute\<close> does not call it.
\<close>

fun add_virtual_servers_loop :: "server list \<Rightarrow> builder \<Rightarrow> error + builder" where
  "add_virtual_servers_loop [] st = Inr st"
| "add_virtual_servers_loop (inst # rest) st =
     (case model st of
        None \<Rightarrow> Inl AttributeError
      | Some m \<Rightarrow>
          (let inst_elem = build_instance_node inst;
               m1 = add_instance inst_elem m;
               cnode_uuid = srv_host inst
           in if cnode_uuid = None then
                add_virtual_servers_loop rest (st \<lparr> model := Some m1 \<rparr>)
              else
                (case get_node_by_uuid m1 cnode_uuid of
                   Inl err \<Rightarrow>
                     if err = ComputeNodeNotFound
                     then add_virtual_servers_loop rest (st \<lparr> model := Some m1 \<rparr>)
                     else Inl err
                 | Inr compute_node \<Rightarrow>
                     add_virtual_servers_loop rest
                       (st \<lparr> model := Some (map_instance inst_elem compute_node m1) \<rparr>))))"

definition add_virtual_servers :: "env \<Rightarrow> builder \<Rightarrow> error + builder" where
  "add_virtual_servers e st =
     add_virtual_servers_loop (get_instance_list e) (call GetInstanceList st)"

definition add_virtual_layer :: "env \<Rightarrow> builder \<Rightarrow> error + builder" where
  "add_virtual_layer e st = add_virtual_servers e st"

subsection \<open>The physical layer\<close>

fun add_compute_nodes :: "env \<Rightarrow> string list \<Rightarrow> builder \<Rightarrow> error + builder" where
  "add_compute_nodes e [] st = Inr st"
| "add_compute_nodes e (node_name # rest) st =
     (let st1 = call (GetComputeNodeByName node_name) st in
      case get_compute_node_by_name e node_name of
        [] \<Rightarrow> add_compute_nodes e rest st1
      | cnode0 # others \<Rightarrow>
          (case add_compute_node e cnode0 st1 of
             Inl err \<Rightarrow> Inl err
           | Inr st2 \<Rightarrow>
               (case add_instance_node e cnode0 st2 of
                  Inl err \<Rightarrow> Inl err
                | Inr st3 \<Rightarrow> add_compute_nodes e rest st3)))"

text \<open>\<^verbatim>\<open>if host_aggregates:\<close> holds for a list that is neither \<open>None\<close> nor empty.\<close>

fun truthy :: "'a list option \<Rightarrow> bool" where
  "truthy None = False"
| "truthy (Some xs) = (xs \<noteq> [])"

definition resolve_compute_nodes :: "env \<Rightarrow> builder \<Rightarrow> error + string list \<times> builder" where
  "resolve_compute_nodes e st =
     (let host_aggregates = map_of (model_scope st) ''host_aggregates'';
          availability_zones = map_of (model_scope st) ''availability_zones'';
          ns1 = (if truthy host_aggregates
                 then collect_aggregates e (the host_aggregates) ([], st) else ([], st))
      in case (if truthy availability_zones
               then collect_zones e (the availability_zones) ns1 else Inr ns1) of
           Inl err \<Rightarrow> Inl err
         | Inr ns2 \<Rightarrow>
             if fst ns2 = [] then
               Inr (set_update [] (map hypervisor_hostname (get_compute_node_list e)),
                    call GetComputeNodeList (snd ns2))
             else Inr ns2)"

definition add_physical_layer :: "env \<Rightarrow> builder \<Rightarrow> error + builder" where
  "add_physical_layer e st =
     (case resolve_compute_nodes e st of
        Inl err \<Rightarrow> Inl err
      | Inr ns \<Rightarrow> add_compute_nodes e (fst ns) (snd ns))"

subsection \<open>The scope cache\<close>

text \<open>
  \<open>_merge_compute_scope\<close>. \<^verbatim>\<open>self.model_scope[role_key].sppend(value)\<close> raises
  \<open>AttributeError\<close> (a list has no attribute \<^verbatim>\<open>sppend\<close>), and so does
  \<^verbatim>\<open>self.self.model_scope[role_key] = role_values\<close> (the builder has no attribute
  \<^verbatim>\<open>self\<close>); each stands before the \<^verbatim>\<open>update_flag = True\<close> of its branch. So the
  function never changes the stored scope, and the flag it returns is the one it
  started with. \<^verbatim>\<open>role.keys()[0]\<close> raises \<open>IndexError\<close> for an empty dict.
\<close>

fun merge_role_values :: "scope_item list \<Rightarrow> scope_item list \<Rightarrow> bool \<Rightarrow> error + bool" where
  "merge_role_values [] stored update_flag = Inr update_flag"
| "merge_role_values (v # role_values) stored update_flag =
     (if v \<notin> set stored then Inl AttributeError
      else merge_role_values role_values stored update_flag)"

fun merge_compute_scope_loop :: "stored_scope \<Rightarrow> role list \<Rightarrow> bool \<Rightarrow> error + bool" where
  "merge_compute_scope_loop scope [] update_flag = Inr update_flag"
| "merge_compute_scope_loop scope (role # rest) update_flag =
     (case role of
        [] \<Rightarrow> Inl IndexError
      | (role_key, role_values) # other_pairs \<Rightarrow>
          if role_key \<notin> {''host_aggregates'', ''availability_zones''} then
            merge_compute_scope_loop scope rest update_flag
          else
            (case map_of scope role_key of
               Some stored \<Rightarrow>
                 (case merge_role_values role_values stored update_flag of
                    Inl err \<Rightarrow> Inl err
                  | Inr flag \<Rightarrow> merge_compute_scope_loop scope rest flag)
             | None \<Rightarrow> Inl AttributeError))"

definition merge_compute_scope :: "builder \<Rightarrow> role list \<Rightarrow> error + bool" where
  "merge_compute_scope st compute_scope =
     merge_compute_scope_loop (model_scope st) compute_scope False"

fun find_compute_scope :: "audit_scope \<Rightarrow> role list" where
  "find_compute_scope [] = []"
| "find_compute_scope (scope_dict # rest) =
     (case map_of scope_dict ''compute'' of
        Some compute_scope \<Rightarrow> compute_scope
      | None \<Rightarrow> find_compute_scope rest)"

definition check_model_scope :: "builder \<Rightarrow> audit_scope \<Rightarrow> error + bool \<times> builder" where
  "check_model_scope st new_scope =
     (let compute_scope = find_compute_scope new_scope in
      if model_scope st \<noteq> [] then
        if new_scope \<noteq> [] then
          if compute_scope \<noteq> [] then
            (case merge_compute_scope st compute_scope of
               Inl err \<Rightarrow> Inl err
             | Inr update_flag \<Rightarrow> Inr (update_flag, st))
          else Inr (False, st)
        else Inr (True, st \<lparr> model_scope := [] \<rparr>)
      else Inr (False, st))"

subsection \<open>execute\<close>

text \<open>
  \<^verbatim>\<open>self.model = self.model or model_root.ModelRoot()\<close>: the model that is held stays
  when it is true; otherwise a new empty model is allocated.
\<close>

definition model_or_new :: "env \<Rightarrow> builder \<Rightarrow> builder" where
  "model_or_new e st =
     (case model st of
        None \<Rightarrow> st \<lparr> model := Some (ModelRoot (next_oid st)), next_oid := Suc (next_oid st) \<rparr>
      | Some m \<Rightarrow>
          if model_bool e m then st
          else st \<lparr> model := Some (ModelRoot (next_oid st)), next_oid := Suc (next_oid st) \<rparr>)"

definition execute :: "env \<Rightarrow> builder \<Rightarrow> audit_scope \<Rightarrow> error + model_root option \<times> builder" where
  "execute e st new_scope =
     (case check_model_scope st new_scope of
        Inl err \<Rightarrow> Inl err
      | Inr (updata_model_flag, st1) \<Rightarrow>
          if model st1 = None \<or> updata_model_flag then
            (case add_physical_layer e (model_or_new e st1) of
               Inl err \<Rightarrow> Inl err
             | Inr st2 \<Rightarrow> Inr (model st2, st2))
          else Inr (model st1, st1))"

subsection \<open>Notions used in the statements\<close>

text \<open>
  \<open>extends st st'\<close>: the builder \<open>st'\<close> has the stored scope and the allocation
  counter of \<open>st\<close>, and if \<open>st\<close> holds a model then \<open>st'\<close> holds the same object, with
  every host, instance and mapped instance of it still there.
\<close>

definition extends :: "builder \<Rightarrow> builder \<Rightarrow> bool" where
  "extends st st' \<longleftrightarrow>
     model_scope st' = model_scope st \<and> next_oid st' = next_oid st \<and>
     (case model st of
        None \<Rightarrow> True
      | Some m \<Rightarrow>
          (case model st' of
             None \<Rightarrow> False
           | Some m' \<Rightarrow>
               oid m' = oid m \<and> dom (nodes m) \<subseteq> dom (nodes m') \<and>
               dom (instances m) \<subseteq> dom (instances m') \<and>
               dom (mapping m) \<subseteq> dom (mapping m')))"

text \<open>
  What the physical layer fetches for a resolved host name: the hypervisor record of
  the first search result, and the instances that result lists and \<open>find_instance\<close>
  returns. A host name is consistent when each of these instances reports the host
  that lists it.
\<close>

definition fetched_host :: "env \<Rightarrow> string \<Rightarrow> hypervisor option" where
  "fetched_host e node_name =
     (case get_compute_node_by_name e node_name of
        [] \<Rightarrow> None
      | cnode0 # others \<Rightarrow> Some (get_compute_node_by_id e (hyp_id cnode0)))"

definition fetched_instances :: "env \<Rightarrow> string \<Rightarrow> server list" where
  "fetched_instances e node_name =
     (case get_compute_node_by_name e node_name of
        [] \<Rightarrow> []
      | cnode0 # others \<Rightarrow>
          (case servers cnode0 of
             None \<Rightarrow> []
           | Some uuids \<Rightarrow> List.map_filter (find_instance e) uuids))"

definition consistent_host :: "env \<Rightarrow> string \<Rightarrow> bool" where
  "consistent_host e node_name =
     list_all (\<lambda>inst. srv_host inst = map_option service_host (fetched_host e node_name))
       (fetched_instances e node_name)"

definition host_uuids :: "env \<Rightarrow> string set \<Rightarrow> string set" where
  "host_uuids e names = (\<Union>n\<in>names. service_host ` set_option (fetched_host e n))"

definition instance_uuids :: "env \<Rightarrow> string set \<Rightarrow> string set" where
  "instance_uuids e names = (\<Union>n\<in>names. srv_id ` set (fetched_instances e n))"

subsection \<open>Example data\<close>

text \<open>
  A small cloud: the aggregate gpu-pool holds the hosts h1 and h2; the compute service
  knows the hypervisor h1, which runs the instance i1, and finds no hypervisor named
  h2.
\<close>

definition mk_hypervisor :: "int \<Rightarrow> string \<Rightarrow> string list option \<Rightarrow> hypervisor" where
  "mk_hypervisor i host srvs =
     \<lparr> hyp_id = i, service_host = host, service_disabled_reason = None,
       hypervisor_hostname = host, memory_mb = 4096, free_disk_gb = 40, local_gb = 80,
       hyp_vcpus = 8, hyp_state = ''up'', hyp_status = ''enabled'', servers = srvs \<rparr>"

definition mk_server :: "string \<Rightarrow> string option \<Rightarrow> server" where
  "mk_server uuid host =
     \<lparr> srv_id = uuid, human_id = uuid, flavor_ram = 512, flavor_disk = 1, flavor_vcpus = 1,
       vm_state = ''active'', metadata = [], tenant_id = ''p1'', locked = False,
       srv_host = host \<rparr>"

definition env_example :: env where
  "env_example =
     \<lparr> get_aggregate_list =
         [\<lparr> agg_id = 1, agg_name = ''gpu-pool'', agg_hosts = [''h1'', ''h2''] \<rparr>],
       get_service_list = [\<lparr> svc_host = ''h1'', svc_zone = ''nova'' \<rparr>],
       get_compute_node_list = [mk_hypervisor 1 ''h1'' (Some [''i1''])],
       get_compute_node_by_name =
         (\<lambda>n. if n = ''h1'' then [mk_hypervisor 1 ''h1'' (Some [''i1''])] else []),
       get_compute_node_by_id = (\<lambda>i. mk_hypervisor i ''h1'' (Some [''i1''])),
       find_instance = (\<lambda>u. if u = ''i1'' then Some (mk_server ''i1'' (Some ''h1'')) else None),
       get_instance_list = [mk_server ''i1'' (Some ''h1'')],
       model_bool = (\<lambda>m. True) \<rparr>"

text \<open>The same cloud, where the instance i1 reports no host.\<close>

definition env_unhosted :: env where
  "env_unhosted =
     env_example \<lparr> find_instance := (\<lambda>u. if u = ''i1'' then Some (mk_server ''i1'' None) else None),
                   get_instance_list := [mk_server ''i1'' None] \<rparr>"

definition id_item :: "id_value \<Rightarrow> scope_item" where
  "id_item i = \<lparr> item_id = Some i, item_name = None \<rparr>"

definition name_item :: "string \<Rightarrow> scope_item" where
  "name_item n = \<lparr> item_id = None, item_name = Some n \<rparr>"

text \<open>A builder that holds a model with the host h0, built under a scope of aggregate 1.\<close>

definition old_model :: model_root where
  "old_model = add_node (build_compute_node (mk_hypervisor 7 ''h0'' None)) (ModelRoot 0)"

definition scoped_builder :: builder where
  "scoped_builder =
     \<lparr> model = Some old_model,
       model_scope = [(''host_aggregates'', [id_item (IntId 1)])],
       next_oid = 1, calls = [] \<rparr>"

text \<open>
  What a build adds to a model in the example cloud: the host h1, its instance i1 and
  the relation between them, after the four calls of \<open>example_calls\<close>.
\<close>

definition populate :: "model_root \<Rightarrow> model_root" where
  "populate m =
     map_instance (build_instance_node (mk_server ''i1'' (Some ''h1'')))
       (build_compute_node (mk_hypervisor 1 ''h1'' (Some [''i1''])))
       (add_instance (build_instance_node (mk_server ''i1'' (Some ''h1'')))
         (add_node (build_compute_node (mk_hypervisor 1 ''h1'' (Some [''i1'']))) m))"

definition example_calls :: "api_call list" where
  "example_calls =
     [GetComputeNodeList, GetComputeNodeByName ''h1'', GetComputeNodeById 1,
      FindInstance ''i1'']"

definition built_builder :: builder where
  "built_builder =
     \<lparr> model = Some (populate (ModelRoot 0)), model_scope = [], next_oid = 1,
       calls = example_calls \<rparr>"



definition gpu_scope :: audit_scope where
  "gpu_scope = [[(''compute'', [[(''host_aggregates'', [name_item ''gpu-pool''])]])]]"

text \<open>A builder with a new empty model and the stored scope of the aggregate gpu-pool.\<close>

definition gpu_builder :: builder where
  "gpu_builder =
     \<lparr> model = Some (ModelRoot 0),
       model_scope = [(''host_aggregates'', [name_item ''gpu-pool''])],
       next_oid = 1, calls = [] \<rparr>"

section \<open>Properties of the keystone helper\<close>

lemma get_role_contract:
  "lookup_contract ''Role'' (roles_get ks) (roles_list ks) RolesGet RolesList (get_role ks)"
  unfolding lookup_contract_def get_role_def
  by (auto split: sum.splits)

lemma get_user_contract:
  "lookup_contract ''User'' (users_get ks) (users_list ks) UsersGet UsersList (get_user ks)"
  unfolding lookup_contract_def get_user_def
  by (auto split: sum.splits)

lemma get_project_contract:
  "lookup_contract ''Project'' (projects_get ks) (projects_list ks) ProjectsGet ProjectsList
     (get_project ks)"
  unfolding lookup_contract_def get_project_def
  by (auto split: sum.splits)

lemma get_domain_contract:
  "lookup_contract ''Domain'' (domains_get ks) (domains_list ks) DomainsGet DomainsList
     (get_domain ks)"
  unfolding lookup_contract_def get_domain_def
  by (auto split: sum.splits)

text \<open>
  C9. Each of the four name-or-id lookups (role, user, project, domain) meets the
  lookup contract: the names are listed only after the lookup by id raised \<open>NotFound\<close>;
  more than one match raises the ambiguity error instead of returning the first match,
  no match raises the not-found error, and exactly one match is returned.
\<close>

theorem name_or_id_lookups:
  "lookup_contract ''Role'' (roles_get ks) (roles_list ks) RolesGet RolesList (get_role ks) \<and>
   lookup_contract ''User'' (users_get ks) (users_list ks) UsersGet UsersList (get_user ks) \<and>
   lookup_contract ''Project'' (projects_get ks) (projects_list ks) ProjectsGet ProjectsList
     (get_project ks) \<and>
   lookup_contract ''Domain'' (domains_get ks) (domains_list ks) DomainsGet DomainsList
     (get_domain ks)"
  by (simp only: get_role_contract get_user_contract get_project_contract
      get_domain_contract simp_thms)

theorem name_or_id_lookups_witness:
  "roles_get ks_example ''operator'' = Inl NotFound \<and>
   get_role ks_example ''operator'' =
     (Inl (Invalid ''Role name seems ambiguous: operator''),
      [RolesGet ''operator'', RolesList ''operator'']) \<and>
   get_user ks_example ''u1'' =
     (Inr \<lparr>ent_id = ''u1'', ent_name = ''alice''\<rparr>, [UsersGet ''u1'']) \<and>
   get_user ks_example ''alice'' =
     (Inr \<lparr>ent_id = ''u1'', ent_name = ''alice''\<rparr>, [UsersGet ''alice'', UsersList ''alice'']) \<and>
   get_project ks_example ''p'' = (Inl (OtherError ''Unauthorized''), [ProjectsGet ''p'']) \<and>
   get_domain ks_example ''d'' =
     (Inl (Invalid ''Domain not Found: d''), [DomainsGet ''d'', DomainsList ''d''])"
proof -
  note c = name_or_id_lookups [of ks_example]
  from c have cr: "lookup_contract ''Role'' (roles_get ks_example) (roles_list ks_example)
      RolesGet RolesList (get_role ks_example)"
    by (rule conjunct1)
  from c have cu: "lookup_contract ''User'' (users_get ks_example) (users_list ks_example)
      UsersGet UsersList (get_user ks_example)"
    by (rule conjunct2 [THEN conjunct1])
  from c have cp: "lookup_contract ''Project'' (projects_get ks_example)
      (projects_list ks_example) ProjectsGet ProjectsList (get_project ks_example)"
    by (rule conjunct2 [THEN conjunct2, THEN conjunct1])
  from c have cd: "lookup_contract ''Domain'' (domains_get ks_example)
      (domains_list ks_example) DomainsGet DomainsList (get_domain ks_example)"
    by (rule conjunct2 [THEN conjunct2, THEN conjunct2])
  have rg: "roles_get ks_example ''operator'' = Inl NotFound"
    by (simp add: ks_example_def)
  have rl: "roles_list ks_example ''operator'' =
      Inr [\<lparr>ent_id = ''r1'', ent_name = ''operator''\<rparr>, \<lparr>ent_id = ''r2'', ent_name = ''operator''\<rparr>]"
    by (simp add: ks_example_def)
  have ug1: "users_get ks_example ''u1'' = Inr \<lparr>ent_id = ''u1'', ent_name = ''alice''\<rparr>"
    by (simp add: ks_example_def)
  have ug2: "users_get ks_example ''alice'' = Inl NotFound"
    by (simp add: ks_example_def)
  have ul2: "users_list ks_example ''alice'' = Inr [\<lparr>ent_id = ''u1'', ent_name = ''alice''\<rparr>]"
    by (simp add: ks_example_def)
  have pg: "projects_get ks_example ''p'' = Inl (OtherError ''Unauthorized'')"
    by (simp add: ks_example_def)
  have dg: "domains_get ks_example ''d'' = Inl NotFound"
    by (simp add: ks_example_def)
  have dl: "domains_list ks_example ''d'' = Inr []"
    by (simp add: ks_example_def)
  from cr [unfolded lookup_contract_def, THEN spec, of "''operator''"] rg rl
  have r: "get_role ks_example ''operator'' =
     (Inl (Invalid ''Role name seems ambiguous: operator''),
      [RolesGet ''operator'', RolesList ''operator''])"
    by (simp add: prod_eq_iff)
  from cu [unfolded lookup_contract_def, THEN spec, of "''u1''"] ug1
  have u1: "get_user ks_example ''u1'' =
     (Inr \<lparr>ent_id = ''u1'', ent_name = ''alice''\<rparr>, [UsersGet ''u1''])"
    by simp
  from cu [unfolded lookup_contract_def, THEN spec, of "''alice''"] ug2 ul2
  have u2: "get_user ks_example ''alice'' =
     (Inr \<lparr>ent_id = ''u1'', ent_name = ''alice''\<rparr>, [UsersGet ''alice'', UsersList ''alice''])"
    by (simp add: prod_eq_iff)
  from cp [unfolded lookup_contract_def, THEN spec, of "''p''"] pg
  have p: "get_project ks_example ''p'' =
     (Inl (OtherError ''Unauthorized''), [ProjectsGet ''p''])"
    by simp
  from cd [unfolded lookup_contract_def, THEN spec, of "''d''"] dg dl
  have d: "get_domain ks_example ''d'' =
     (Inl (Invalid ''Domain not Found: d''), [DomainsGet ''d'', DomainsList ''d''])"
    by (simp add: prod_eq_iff)
  from rg r u1 u2 p d show ?thesis by (simp only: simp_thms)
qed

text \<open>
  C10. Whenever the lookup of the user raises \<^verbatim>\<open>exception.Invalid\<close> (the user is not
  found, or its name is ambiguous), \<open>delete_user\<close> returns normally, and it makes no
  call on the client beyond those of the lookup: the delete call is not made.
\<close>

theorem delete_user_swallows_invalid:
  "fst (get_user ks user) = Inl (Invalid msg) \<Longrightarrow>
   delete_user ks user = (Inr (), snd (get_user ks user))"
  by (cases "get_user ks user") (simp add: delete_user_def)

theorem delete_user_swallows_invalid_witness:
  "fst (get_user ks_example ''bob'') = Inl (Invalid ''User not Found: bob'') \<and>
   delete_user ks_example ''bob'' = (Inr (), [UsersGet ''bob'', UsersList ''bob''])"
proof -
  have g: "get_user ks_example ''bob'' =
      (Inl (Invalid ''User not Found: bob''), [UsersGet ''bob'', UsersList ''bob''])"
    by (simp add: get_user_def ks_example_def)
  then have h: "fst (get_user ks_example ''bob'') = Inl (Invalid ''User not Found: bob'')"
    by simp
  from delete_user_swallows_invalid [OF h] g show ?thesis by simp
qed

section \<open>Properties of the model builder\<close>

subsection \<open>Sets and filters\<close>

lemma set_map_filter: "set (List.map_filter f xs) = {y. \<exists>x\<in>set xs. f x = Some y}"
  by (induction xs) (auto split: option.splits)

lemma set_set_update: "set (set_update s xs) = set s \<union> set xs"
  by (induction xs arbitrary: s) auto

lemma collect_aggregates_loop_all:
  "collect_aggregates_loop ids names True aggs acc =
   collect_aggregates_loop ids' names' True aggs acc"
  by (induction aggs arbitrary: acc) simp_all

lemma collect_zones_loop_all:
  "collect_zones_loop names True svcs acc = collect_zones_loop names' True svcs acc"
  by (induction svcs arbitrary: acc) simp_all

lemma collect_aggregates_wildcard:
  assumes "\<exists>a\<in>set ha. item_id a = Some (StrId ''*'') \<or> item_name a = Some ''*''"
    and "\<exists>a\<in>set hb. item_id a = Some (StrId ''*'') \<or> item_name a = Some ''*''"
  shows "collect_aggregates e ha ns = collect_aggregates e hb ns"
proof -
  from assms(1) have a: "StrId ''*'' \<in> set (List.map_filter item_id ha) \<or>
      ''*'' \<in> set (List.map_filter item_name ha)"
    by (auto simp: set_map_filter)
  from assms(2) have b: "StrId ''*'' \<in> set (List.map_filter item_id hb) \<or>
      ''*'' \<in> set (List.map_filter item_name hb)"
    by (auto simp: set_map_filter)
  show ?thesis
    unfolding collect_aggregates_def Let_def
    using a b collect_aggregates_loop_all by auto
qed

lemma collect_zones_wildcard:
  assumes "list_all (\<lambda>z. item_name z \<noteq> None) zs"
    and "\<exists>z\<in>set zs. item_name z = Some ''*''"
  shows "collect_zones e zs ns = collect_zones e [name_item ''*''] ns"
proof -
  from assms(2) have a: "''*'' \<in> set (List.map_filter item_name zs)"
    by (auto simp: set_map_filter)
  have b: "''*'' \<in> set (List.map_filter item_name [name_item ''*''])"
    by (simp add: name_item_def)
  have c: "list_all (\<lambda>z. item_name z \<noteq> None) [name_item ''*'']"
    by (simp add: name_item_def)
  show ?thesis
    unfolding collect_zones_def Let_def
    using a b c assms(1) collect_zones_loop_all by auto
qed

text \<open>
  C7. A filter list that holds the wildcard \<^verbatim>\<open>"*"\<close> resolves to the same hosts as the
  list that holds the wildcard alone, whatever else it holds. For aggregates the
  wildcard may stand as an id or as a name, and the list is compared with either
  one-entry list. For zones every entry has a name, as a concrete entry does
  (\<^verbatim>\<open>zone['name']\<close> raises for one that has none). The results are equal as lists, so
  as sets too, and the calls made are the same.
\<close>

theorem wildcard_short_circuits:
  "((\<exists>a\<in>set ha. item_id a = Some (StrId ''*'') \<or> item_name a = Some ''*'') \<longrightarrow>
      collect_aggregates e ha ns = collect_aggregates e [id_item (StrId ''*'')] ns \<and>
      collect_aggregates e ha ns = collect_aggregates e [name_item ''*''] ns) \<and>
   (list_all (\<lambda>z. item_name z \<noteq> None) zs \<and> (\<exists>z\<in>set zs. item_name z = Some ''*'') \<longrightarrow>
      collect_zones e zs ns = collect_zones e [name_item ''*''] ns)"
proof -
  have i: "\<exists>a\<in>set [id_item (StrId ''*'')]. item_id a = Some (StrId ''*'') \<or> item_name a = Some ''*''"
    by (simp add: id_item_def)
  have n: "\<exists>a\<in>set [name_item ''*'']. item_id a = Some (StrId ''*'') \<or> item_name a = Some ''*''"
    by (simp add: name_item_def)
  show ?thesis
    using collect_aggregates_wildcard [OF _ i] collect_aggregates_wildcard [OF _ n]
      collect_zones_wildcard by blast
qed

theorem wildcard_short_circuits_witness:
  "collect_aggregates env_example [id_item (IntId 5), name_item ''*''] ([], new_builder) =
     collect_aggregates env_example [id_item (StrId ''*'')] ([], new_builder) \<and>
   fst (collect_aggregates env_example [id_item (IntId 5), name_item ''*''] ([], new_builder)) =
     [''h1'', ''h2''] \<and>
   collect_zones env_example [name_item ''east'', name_item ''*''] ([], new_builder) =
     collect_zones env_example [name_item ''*''] ([], new_builder)"
proof -
  have a: "\<exists>a\<in>set [id_item (IntId 5), name_item ''*''].
      item_id a = Some (StrId ''*'') \<or> item_name a = Some ''*''"
    by (simp add: name_item_def)
  have z1: "list_all (\<lambda>z. item_name z \<noteq> None) [name_item ''east'', name_item ''*'']"
    by (simp add: name_item_def)
  have z2: "\<exists>z\<in>set [name_item ''east'', name_item ''*'']. item_name z = Some ''*''"
    by (simp add: name_item_def)
  note w = wildcard_short_circuits [of "[id_item (IntId 5), name_item ''*'']" env_example
      "([], new_builder)" "[name_item ''east'', name_item ''*'']"]
  from w a have r1: "collect_aggregates env_example [id_item (IntId 5), name_item ''*''] ([], new_builder) =
     collect_aggregates env_example [id_item (StrId ''*'')] ([], new_builder)"
    by blast
  from w z1 z2 have r2: "collect_zones env_example [name_item ''east'', name_item ''*''] ([], new_builder) =
     collect_zones env_example [name_item ''*''] ([], new_builder)"
    by blast
  have r3: "fst (collect_aggregates env_example [id_item (IntId 5), name_item ''*''] ([], new_builder)) =
     [''h1'', ''h2'']"
    by (simp add: collect_aggregates_def env_example_def id_item_def name_item_def)
  from r1 r2 r3 show ?thesis by (simp only: simp_thms)
qed

text \<open>
  C5. With the zone filter \<^verbatim>\<open>[{"name": "*"}]\<close> and one service on the host h1,
  \<open>_collect_zones\<close> resolves the two strings h and 1, the characters of the host name,
  and not the host name h1.
\<close>

theorem zone_wildcard_adds_characters:
  "collect_zones env_example [name_item ''*''] ([], new_builder) =
     Inr ([''h'', ''1''], call GetServiceList new_builder)"
  by (simp add: collect_zones_def env_example_def name_item_def chars_of_def)

subsection \<open>The scope cache\<close>

text \<open>
  C8. While a scope is stored, applying the empty scope clears the stored scope and
  returns the flag that asks for a rebuild; nothing else of the builder changes.
\<close>

theorem empty_scope_clears:
  "model_scope st \<noteq> [] \<Longrightarrow>
   check_model_scope st [] = Inr (True, st \<lparr> model_scope := [] \<rparr>)"
  by (simp add: check_model_scope_def)

theorem empty_scope_clears_witness:
  "model_scope scoped_builder \<noteq> [] \<and>
   check_model_scope scoped_builder [] = Inr (True, scoped_builder \<lparr> model_scope := [] \<rparr>)"
proof -
  have h: "model_scope scoped_builder \<noteq> []"
    by (simp add: scoped_builder_def)
  from h empty_scope_clears [OF h] show ?thesis by (simp only: simp_thms)
qed

text \<open>
  C2. The stored scope holds the aggregate id 1. Applying a scope with the aggregate
  id 2, which is absent from it, raises \<open>AttributeError\<close> (the call of \<^verbatim>\<open>sppend\<close>), and
  so does applying a scope with a key the stored scope has not (the assignment through
  \<^verbatim>\<open>self.self\<close>): no flag is returned and nothing is stored. With no scope stored, the
  same new scope returns the flag False and leaves the stored scope empty.
\<close>

theorem new_aggregate_id_raises:
  "check_model_scope scoped_builder
     [[(''compute'', [[(''host_aggregates'', [id_item (IntId 2)])]])]] = Inl AttributeError \<and>
   check_model_scope scoped_builder
     [[(''compute'', [[(''availability_zones'', [name_item ''east''])]])]] = Inl AttributeError \<and>
   check_model_scope new_builder
     [[(''compute'', [[(''host_aggregates'', [id_item (IntId 2)])]])]] = Inr (False, new_builder)"
  by (simp add: check_model_scope_def merge_compute_scope_def scoped_builder_def
      new_builder_def id_item_def name_item_def)

subsection \<open>Instances without a host\<close>

text \<open>
  \<open>_add_virtual_servers\<close> adds an instance that reports no host to the model, maps it
  to no host and goes on with the remaining instances; it raises nothing while the
  builder holds a model.
\<close>

lemma add_virtual_servers_loop_unhosted:
  "model st = Some m \<Longrightarrow> srv_host inst = None \<Longrightarrow>
   add_virtual_servers_loop (inst # rest) st =
   add_virtual_servers_loop rest
     (st \<lparr> model := Some (add_instance (build_instance_node inst) m) \<rparr>)"
  by (simp add: Let_def)

lemma add_virtual_servers_loop_total:
  "model st \<noteq> None \<Longrightarrow> \<exists>st'. add_virtual_servers_loop insts st = Inr st'"
  by (induction insts arbitrary: st)
     (auto simp: Let_def get_node_by_uuid_def split: option.splits sum.splits)

text \<open>
  C4. \<open>add_instance_node\<close>, the path \<open>execute\<close> takes, has no such branch. The
  hypervisor h1 lists the instance i1, and the instance reports no host: the lookup of
  the host raises \<open>ComputeNodeNotFound\<close>, which nothing catches, so \<open>add_instance_node\<close>
  and the whole of \<open>execute\<close> raise it.
\<close>

theorem unhosted_instance_raises:
  "add_instance_node env_unhosted (mk_hypervisor 1 ''h1'' (Some [''i1'']))
     (new_builder \<lparr> model :=
        Some (add_node (build_compute_node (mk_hypervisor 1 ''h1'' (Some [''i1''])))
               (ModelRoot 0)) \<rparr>) = Inl ComputeNodeNotFound \<and>
   execute env_unhosted new_builder [] = Inl ComputeNodeNotFound"
  by (simp add: add_instance_node_def env_unhosted_def env_example_def mk_hypervisor_def
      mk_server_def new_builder_def call_def get_node_by_uuid_def execute_def
      check_model_scope_def model_or_new_def add_physical_layer_def
      resolve_compute_nodes_def add_compute_node_def Let_def)

subsection \<open>Rebuild and reuse\<close>

lemma extends_refl: "extends st st"
  by (simp add: extends_def split: option.splits)

lemma extends_trans: "extends a b \<Longrightarrow> extends b c \<Longrightarrow> extends a c"
  unfolding extends_def
  by (cases "model a"; cases "model b"; cases "model c") (simp_all, blast)

lemma extends_call: "extends st (call c st)"
  by (simp add: extends_def call_def split: option.splits)

lemma add_compute_node_extends:
  "add_compute_node e node st = Inr st' \<Longrightarrow> extends st st'"
  by (auto simp: add_compute_node_def Let_def call_def extends_def add_node_def
      split: option.splits)

lemma add_instance_node_loop_extends:
  "add_instance_node_loop e us st = Inr st' \<Longrightarrow> extends st st'"
proof (induction us arbitrary: st)
  case Nil
  then show ?case by (simp add: extends_refl)
next
  case (Cons u us)
  show ?case
  proof (cases "find_instance e u")
    case None
    with Cons.prems have "add_instance_node_loop e us (call (FindInstance u) st) = Inr st'"
      by (simp add: Let_def)
    from Cons.IH [OF this] extends_call show ?thesis
      by (rule extends_trans [rotated])
  next
    case (Some inst)
    with Cons.prems obtain m cn where m: "model (call (FindInstance u) st) = Some m"
      and cn: "get_node_by_uuid (add_instance (build_instance_node inst) m) (srv_host inst) = Inr cn"
      and rest: "add_instance_node_loop e us
          (call (FindInstance u) st \<lparr> model :=
             Some (map_instance (build_instance_node inst) cn
                    (add_instance (build_instance_node inst) m)) \<rparr>) = Inr st'"
      by (auto simp: Let_def split: option.splits sum.splits)
    have "extends st (call (FindInstance u) st \<lparr> model :=
             Some (map_instance (build_instance_node inst) cn
                    (add_instance (build_instance_node inst) m)) \<rparr>)"
      using m by (auto simp: extends_def call_def map_instance_def add_instance_def
          split: option.splits)
    from this Cons.IH [OF rest] show ?thesis by (rule extends_trans)
  qed
qed

lemma add_instance_node_extends:
  "add_instance_node e node st = Inr st' \<Longrightarrow> extends st st'"
  by (auto simp: add_instance_node_def extends_refl add_instance_node_loop_extends
      split: option.splits)

lemma add_compute_nodes_extends:
  "add_compute_nodes e ns st = Inr st' \<Longrightarrow> extends st st'"
proof (induction ns arbitrary: st)
  case Nil
  then show ?case by (simp add: extends_refl)
next
  case (Cons n ns)
  show ?case
  proof (cases "get_compute_node_by_name e n")
    case Nil
    with Cons.prems have "add_compute_nodes e ns (call (GetComputeNodeByName n) st) = Inr st'"
      by (simp add: Let_def)
    from Cons.IH [OF this] extends_call show ?thesis
      by (rule extends_trans [rotated])
  next
    case (Cons c cs)
    with Cons.prems obtain st2 st3
      where a: "add_compute_node e c (call (GetComputeNodeByName n) st) = Inr st2"
        and b: "add_instance_node e c st2 = Inr st3"
        and r: "add_compute_nodes e ns st3 = Inr st'"
      by (auto simp: Let_def split: sum.splits)
    have "extends st st2"
      using extends_call add_compute_node_extends [OF a] by (rule extends_trans)
    from this add_instance_node_extends [OF b] have "extends st st3"
      by (rule extends_trans)
    from this Cons.IH [OF r] show ?thesis by (rule extends_trans)
  qed
qed

lemma resolve_compute_nodes_extends:
  "resolve_compute_nodes e st = Inr ns \<Longrightarrow> extends st (snd ns) \<and> model (snd ns) = model st"
  by (auto simp: resolve_compute_nodes_def collect_aggregates_def collect_zones_def Let_def
      call_def extends_def split: if_splits option.splits sum.splits)

lemma add_physical_layer_extends:
  "add_physical_layer e st = Inr st' \<Longrightarrow> extends st st'"
  by (auto simp: add_physical_layer_def split: sum.splits
      dest!: resolve_compute_nodes_extends add_compute_nodes_extends intro: extends_trans)

lemma merge_role_values_flag:
  "merge_role_values vs stored flag =
     (if list_all (\<lambda>v. v \<in> set stored) vs then Inr flag else Inl AttributeError)"
  by (induction vs) simp_all

lemma merge_compute_scope_loop_flag:
  "isl (merge_compute_scope_loop scope roles flag) \<or>
   merge_compute_scope_loop scope roles flag = Inr flag"
proof (induction roles)
  case Nil
  show ?case by simp
next
  case (Cons role roles)
  then show ?case
    by (auto simp: merge_role_values_flag split: list.splits option.splits)
qed

lemma merge_compute_scope_flag:
  "merge_compute_scope st compute_scope = Inr flag \<Longrightarrow> flag = False"
  using merge_compute_scope_loop_flag [of "model_scope st" compute_scope False]
  by (auto simp: merge_compute_scope_def)

lemma check_model_scope_nonempty:
  "check_model_scope st sc = Inr (flag, st1) \<Longrightarrow> sc \<noteq> [] \<Longrightarrow> flag = False \<and> st1 = st"
  by (auto simp: check_model_scope_def Let_def
      split: if_splits sum.splits dest: merge_compute_scope_flag)


lemma check_model_scope_same_scope:
  "check_model_scope st sc = Inr (False, st) \<Longrightarrow> model_scope st1 = model_scope st \<Longrightarrow>
   check_model_scope st1 sc = Inr (False, st1)"
  by (auto simp: check_model_scope_def merge_compute_scope_def Let_def
      split: if_splits sum.splits)

lemma extends_model_or_new: "model (model_or_new e st) \<noteq> None \<and>
  model_scope (model_or_new e st) = model_scope st"
  by (simp add: model_or_new_def split: option.splits)

text \<open>
  C3. If a call of \<open>execute\<close> with a non-empty scope returns, the next call with the
  same scope finds the reuse decision (the flag False) and returns the same model
  object, and it leaves the builder as the first call left it: the stored scope, the
  model, the allocation counter and the list of calls made on the compute service are
  unchanged, so the second call fetches nothing. The second call may be given any
  collaborators \<open>e'\<close>: it does not consult them.
\<close>

theorem execute_twice_reuses:
  assumes "sc \<noteq> []" and "execute e st sc = Inr (r, st1)"
  shows "check_model_scope st1 sc = Inr (False, st1) \<and>
         execute e' st1 sc = Inr (r, st1) \<and> r = model st1 \<and> r \<noteq> None"
proof -
  from assms(2) obtain flag st0 where c: "check_model_scope st sc = Inr (flag, st0)"
    by (auto simp: execute_def split: sum.splits)
  from check_model_scope_nonempty [OF c assms(1)] have f: "flag = False" and s: "st0 = st"
    by simp_all
  have ms: "model_scope st1 = model_scope st \<and> model st1 \<noteq> None \<and> r = model st1"
  proof (cases "model st")
    case None
    with assms(2) c f s have p: "add_physical_layer e (model_or_new e st) = Inr st1"
      and r: "r = model st1"
      by (auto simp: execute_def split: sum.splits)
    from add_physical_layer_extends [OF p] extends_model_or_new [of e st] r
    show ?thesis
      by (auto simp: extends_def split: option.splits)
  next
    case (Some m)
    with assms(2) c f s have "st1 = st" and "r = model st"
      by (auto simp: execute_def)
    with Some show ?thesis by simp
  qed
  from c f s have "check_model_scope st sc = Inr (False, st)" by simp
  from check_model_scope_same_scope [OF this] ms
  have c1: "check_model_scope st1 sc = Inr (False, st1)" by simp
  from c1 ms show ?thesis
    by (auto simp: execute_def)
qed


theorem execute_twice_reuses_witness:
  "gpu_scope \<noteq> [] \<and>
   execute env_example new_builder gpu_scope = Inr (Some (populate (ModelRoot 0)), built_builder) \<and>
   check_model_scope built_builder gpu_scope = Inr (False, built_builder) \<and>
   execute env_unhosted built_builder gpu_scope =
     Inr (Some (populate (ModelRoot 0)), built_builder)"
proof -
  have n: "gpu_scope \<noteq> []"
    by (simp add: gpu_scope_def)
  have x: "execute env_example new_builder gpu_scope =
      Inr (Some (populate (ModelRoot 0)), built_builder)"
    by (simp add: execute_def check_model_scope_def new_builder_def model_or_new_def
        add_physical_layer_def resolve_compute_nodes_def env_example_def call_def
        add_compute_node_def add_instance_node_def mk_hypervisor_def mk_server_def
        get_node_by_uuid_def populate_def built_builder_def example_calls_def
        build_compute_node_def build_instance_node_def add_node_def add_instance_def
        map_instance_def ModelRoot_def gpu_scope_def Let_def)
  from execute_twice_reuses [OF n x, of env_unhosted] n x show ?thesis
    by (simp only: simp_thms)
qed







subsection \<open>What the physical layer holds\<close>

lemma add_instance_node_loop_content:
  assumes "model st = Some m" and "hu \<in> dom (nodes m)"
    and "list_all (\<lambda>i. srv_host i = Some hu) (List.map_filter (find_instance e) us)"
  shows "\<exists>st' m'. add_instance_node_loop e us st = Inr st' \<and> model st' = Some m' \<and>
      nodes m' = nodes m \<and>
      dom (instances m') =
        dom (instances m) \<union> srv_id ` set (List.map_filter (find_instance e) us) \<and>
      dom (mapping m') =
        dom (mapping m) \<union> srv_id ` set (List.map_filter (find_instance e) us)"
  using assms
proof (induction us arbitrary: st m)
  case Nil
  then show ?case by simp
next
  case (Cons u us)
  show ?case
  proof (cases "find_instance e u")
    case None
    from Cons.prems None
    have "list_all (\<lambda>i. srv_host i = Some hu) (List.map_filter (find_instance e) us)"
      by simp
    from Cons.IH [of "call (FindInstance u) st" m, OF _ Cons.prems(2) this] Cons.prems(1) None
    show ?thesis
      by (simp add: call_def Let_def)
  next
    case (Some inst)
    from Cons.prems(3) Some have h: "srv_host inst = Some hu"
      and r: "list_all (\<lambda>i. srv_host i = Some hu) (List.map_filter (find_instance e) us)"
      by simp_all
    from Cons.prems(2) obtain cn where cn: "nodes m hu = Some cn"
      by blast
    define m1 where "m1 = map_instance (build_instance_node inst) cn
        (add_instance (build_instance_node inst) m)"
    have n1: "nodes m1 = nodes m"
      and i1: "dom (instances m1) = insert (srv_id inst) (dom (instances m))"
      and p1: "dom (mapping m1) = insert (srv_id inst) (dom (mapping m))"
      by (simp_all add: m1_def map_instance_def add_instance_def build_instance_node_def)
    have step: "add_instance_node_loop e (u # us) st =
        add_instance_node_loop e us (call (FindInstance u) st \<lparr> model := Some m1 \<rparr>)"
      using Some Cons.prems(1) h cn
      by (simp add: Let_def call_def get_node_by_uuid_def add_instance_def m1_def)
    have "model (call (FindInstance u) st \<lparr> model := Some m1 \<rparr>) = Some m1"
      by simp
    from Cons.IH [OF this _ r] Cons.prems(2) n1
    obtain st' m' where "add_instance_node_loop e us
          (call (FindInstance u) st \<lparr> model := Some m1 \<rparr>) = Inr st'"
      and "model st' = Some m'" and "nodes m' = nodes m1"
      and "dom (instances m') =
        dom (instances m1) \<union> srv_id ` set (List.map_filter (find_instance e) us)"
      and "dom (mapping m') =
        dom (mapping m1) \<union> srv_id ` set (List.map_filter (find_instance e) us)"
      by auto
    with step n1 i1 p1 Some show ?thesis
      by auto
  qed
qed

lemma host_uuids_insert:
  "host_uuids e (insert n S) = service_host ` set_option (fetched_host e n) \<union> host_uuids e S"
  by (simp add: host_uuids_def)

lemma instance_uuids_insert:
  "instance_uuids e (insert n S) = srv_id ` set (fetched_instances e n) \<union> instance_uuids e S"
  by (simp add: instance_uuids_def)

lemma add_compute_nodes_content:
  assumes "model st = Some m0" and "\<forall>n\<in>set ns. consistent_host e n"
  shows "\<exists>st' m'. add_compute_nodes e ns st = Inr st' \<and> model st' = Some m' \<and>
      dom (nodes m') = dom (nodes m0) \<union> host_uuids e (set ns) \<and>
      dom (instances m') = dom (instances m0) \<union> instance_uuids e (set ns) \<and>
      dom (mapping m') = dom (mapping m0) \<union> instance_uuids e (set ns)"
  using assms
proof (induction ns arbitrary: st m0)
  case Nil
  then show ?case by (simp add: host_uuids_def instance_uuids_def)
next
  case (Cons n ns)
  from Cons.prems(2) have cs: "\<forall>n\<in>set ns. consistent_host e n" and cn: "consistent_host e n"
    by simp_all
  show ?case
  proof (cases "get_compute_node_by_name e n")
    case Nil
    then have f: "fetched_host e n = None" and i: "fetched_instances e n = []"
      by (simp_all add: fetched_host_def fetched_instances_def)
    have "model (call (GetComputeNodeByName n) st) = Some m0"
      using Cons.prems(1) by (simp add: call_def)
    from Cons.IH [OF this cs] Nil f i show ?thesis
      by (simp add: Let_def host_uuids_insert instance_uuids_insert)
  next
    case (Cons c others)
    define hv where "hv = get_compute_node_by_id e (hyp_id c)"
    define m1 where "m1 = add_node (build_compute_node hv) m0"
    define st2 where "st2 = call (GetComputeNodeById (hyp_id c))
        (call (GetComputeNodeByName n) st) \<lparr> model := Some m1 \<rparr>"
    have f: "fetched_host e n = Some hv"
      using Cons by (simp add: fetched_host_def hv_def)
    have a: "add_compute_node e c (call (GetComputeNodeByName n) st) = Inr st2"
      using Cons.prems(1)
      by (simp add: add_compute_node_def Let_def call_def st2_def m1_def hv_def)
    have ms2: "model st2 = Some m1"
      by (simp add: st2_def)
    have n1: "dom (nodes m1) = insert (service_host hv) (dom (nodes m0))"
      and i1: "instances m1 = instances m0" and p1: "mapping m1 = mapping m0"
      by (simp_all add: m1_def add_node_def build_compute_node_def)
    have "\<exists>st3 m3. add_instance_node e c st2 = Inr st3 \<and> model st3 = Some m3 \<and>
        nodes m3 = nodes m1 \<and>
        dom (instances m3) = dom (instances m1) \<union> srv_id ` set (fetched_instances e n) \<and>
        dom (mapping m3) = dom (mapping m1) \<union> srv_id ` set (fetched_instances e n)"
    proof (cases "servers c")
      case None
      with Cons ms2 show ?thesis
        by (simp add: add_instance_node_def fetched_instances_def)
    next
      case (Some us)
      with Cons have fi: "fetched_instances e n = List.map_filter (find_instance e) us"
        by (simp add: fetched_instances_def)
      from cn f fi have l: "list_all (\<lambda>i. srv_host i = Some (service_host hv))
          (List.map_filter (find_instance e) us)"
        by (simp add: consistent_host_def)
      have d: "service_host hv \<in> dom (nodes m1)"
        using n1 by simp
      from add_instance_node_loop_content [OF ms2 d l] Some fi show ?thesis
        by (simp add: add_instance_node_def)
    qed
    then obtain st3 m3 where b: "add_instance_node e c st2 = Inr st3"
      and ms3: "model st3 = Some m3" and n3: "nodes m3 = nodes m1"
      and i3: "dom (instances m3) = dom (instances m1) \<union> srv_id ` set (fetched_instances e n)"
      and p3: "dom (mapping m3) = dom (mapping m1) \<union> srv_id ` set (fetched_instances e n)"
      by (elim exE conjE) iprover
    from Cons.IH [OF ms3 cs] obtain st' m' where r: "add_compute_nodes e ns st3 = Inr st'"
      and ms': "model st' = Some m'"
      and n': "dom (nodes m') = dom (nodes m3) \<union> host_uuids e (set ns)"
      and i': "dom (instances m') = dom (instances m3) \<union> instance_uuids e (set ns)"
      and p': "dom (mapping m') = dom (mapping m3) \<union> instance_uuids e (set ns)"
      by (elim exE conjE) iprover
    have step: "add_compute_nodes e (n # ns) st = Inr st'"
      using Cons a b r by (simp add: Let_def)
    have hn: "dom (nodes m') = dom (nodes m0) \<union> host_uuids e (set (n # ns))"
      by (simp add: n' n3 n1 f host_uuids_insert Un_assoc)
    have hi: "dom (instances m') = dom (instances m0) \<union> instance_uuids e (set (n # ns))"
      by (simp add: i' i3 i1 instance_uuids_insert Un_assoc)
    have hp: "dom (mapping m') = dom (mapping m0) \<union> instance_uuids e (set (n # ns))"
      by (simp add: p' p3 p1 instance_uuids_insert Un_assoc)
    from step ms' hn hi hp show ?thesis
      by (intro exI conjI)
  qed
qed

lemma UN_without_empty: "f h = {} \<Longrightarrow> (\<Union>n\<in>S - {h}. f n) = (\<Union>n\<in>S. f n)"
  by fastforce

lemma host_uuids_missing:
  assumes "get_compute_node_by_name e h = []"
  shows "host_uuids e (S - {h}) = host_uuids e S"
proof -
  from assms have "service_host ` set_option (fetched_host e h) = {}"
    by (simp add: fetched_host_def)
  then show ?thesis
    unfolding host_uuids_def by (rule UN_without_empty)
qed

lemma instance_uuids_missing:
  assumes "get_compute_node_by_name e h = []"
  shows "instance_uuids e (S - {h}) = instance_uuids e S"
proof -
  from assms have "srv_id ` set (fetched_instances e h) = {}"
    by (simp add: fetched_instances_def)
  then show ?thesis
    unfolding instance_uuids_def by (rule UN_without_empty)
qed

text \<open>
  The skip itself works. The scope resolves to the host names \<open>ns\<close>; the search for
  one of them, \<open>h\<close>, yields no hypervisor, the search for every other one yields one,
  and each instance fetched for a host reports that host. Then the physical layer is
  built without an error, and the model holds, beyond what it held before, exactly the
  hosts fetched for the names other than \<open>h\<close>, each of them, and exactly their
  instances, each mapped.
\<close>

lemma consistent_hosts_build:
  assumes "model st = Some m0"
    and "resolve_compute_nodes e st = Inr (ns, st1)"
    and "h \<in> set ns" and "get_compute_node_by_name e h = []"
    and "\<forall>n\<in>set ns. n \<noteq> h \<longrightarrow> get_compute_node_by_name e n \<noteq> []"
    and "\<forall>n\<in>set ns. consistent_host e n"
  shows "\<exists>st' m'. add_physical_layer e st = Inr st' \<and> model st' = Some m' \<and>
      dom (nodes m') = dom (nodes m0) \<union> host_uuids e (set ns - {h}) \<and>
      dom (instances m') = dom (instances m0) \<union> instance_uuids e (set ns - {h}) \<and>
      dom (mapping m') = dom (mapping m0) \<union> instance_uuids e (set ns - {h}) \<and>
      (\<forall>n\<in>set ns - {h}. \<exists>hv. fetched_host e n = Some hv \<and> service_host hv \<in> dom (nodes m'))"
proof -
  from resolve_compute_nodes_extends [OF assms(2)] assms(1) have m1: "model st1 = Some m0"
    by simp
  from add_compute_nodes_content [OF m1 assms(6)] obtain st' m'
    where r: "add_compute_nodes e ns st1 = Inr st'" and ms: "model st' = Some m'"
      and n: "dom (nodes m') = dom (nodes m0) \<union> host_uuids e (set ns)"
      and i: "dom (instances m') = dom (instances m0) \<union> instance_uuids e (set ns)"
      and p: "dom (mapping m') = dom (mapping m0) \<union> instance_uuids e (set ns)"
    by (elim exE conjE) iprover
  have a: "add_physical_layer e st = Inr st'"
    using assms(2) r by (simp add: add_physical_layer_def)
  have each: "\<exists>hv. fetched_host e k = Some hv \<and> service_host hv \<in> dom (nodes m')"
    if "k \<in> set ns - {h}" for k
  proof -
    from that assms(5) obtain c cs where "get_compute_node_by_name e k = c # cs"
      by (cases "get_compute_node_by_name e k") auto
    then have f: "fetched_host e k = Some (get_compute_node_by_id e (hyp_id c))"
      by (simp add: fetched_host_def)
    with that have "service_host (get_compute_node_by_id e (hyp_id c)) \<in> host_uuids e (set ns)"
      by (force simp: host_uuids_def)
    with n f show ?thesis by blast
  qed
  from each have all: "\<forall>n\<in>set ns - {h}. \<exists>hv. fetched_host e n = Some hv \<and>
      service_host hv \<in> dom (nodes m')"
    by (rule ballI)
  have hn: "dom (nodes m') = dom (nodes m0) \<union> host_uuids e (set ns - {h})"
    by (simp only: n host_uuids_missing [OF assms(4)])
  have hi: "dom (instances m') = dom (instances m0) \<union> instance_uuids e (set ns - {h})"
    by (simp only: i instance_uuids_missing [OF assms(4)])
  have hp: "dom (mapping m') = dom (mapping m0) \<union> instance_uuids e (set ns - {h})"
    by (simp only: p instance_uuids_missing [OF assms(4)])
  from a ms hn hi hp all show ?thesis
    by (intro exI conjI)
qed

lemma consistent_hosts_build_example:
  "model gpu_builder = Some (ModelRoot 0) \<and>
   resolve_compute_nodes env_example gpu_builder =
     Inr ([''h1'', ''h2''], call GetAggregateList gpu_builder) \<and>
   get_compute_node_by_name env_example ''h2'' = [] \<and>
   get_compute_node_by_name env_example ''h1'' \<noteq> [] \<and>
   consistent_host env_example ''h1'' \<and> consistent_host env_example ''h2'' \<and>
   (\<exists>st' m'. add_physical_layer env_example gpu_builder = Inr st' \<and> model st' = Some m' \<and>
      dom (nodes m') = {''h1''} \<and> dom (instances m') = {''i1''} \<and>
      dom (mapping m') = {''i1''})"
proof -
  have m: "model gpu_builder = Some (ModelRoot 0)"
    by (simp add: gpu_builder_def)
  have r: "resolve_compute_nodes env_example gpu_builder =
     Inr ([''h1'', ''h2''], call GetAggregateList gpu_builder)"
    by (simp add: resolve_compute_nodes_def gpu_builder_def env_example_def
        collect_aggregates_def name_item_def call_def Let_def)
  have h: "''h2'' \<in> set [''h1'', ''h2'']"
    by simp
  have g2: "get_compute_node_by_name env_example ''h2'' = []"
    by (simp add: env_example_def)
  have g1: "get_compute_node_by_name env_example ''h1'' \<noteq> []"
    by (simp add: env_example_def)
  have c1: "consistent_host env_example ''h1''"
    by (simp add: consistent_host_def fetched_host_def fetched_instances_def env_example_def
        mk_hypervisor_def mk_server_def)
  have c2: "consistent_host env_example ''h2''"
    by (simp add: consistent_host_def fetched_host_def fetched_instances_def env_example_def)
  have o: "\<forall>n\<in>set [''h1'', ''h2'']. n \<noteq> ''h2'' \<longrightarrow> get_compute_node_by_name env_example n \<noteq> []"
    using g1 by simp
  have c: "\<forall>n\<in>set [''h1'', ''h2'']. consistent_host env_example n"
    using c1 c2 by simp
  have s: "set [''h1'', ''h2''] - {''h2''} = {''h1''}"
    by auto
  have hu: "host_uuids env_example {''h1''} = {''h1''}"
    by (simp add: host_uuids_def fetched_host_def env_example_def mk_hypervisor_def)
  have iu: "instance_uuids env_example {''h1''} = {''i1''}"
    by (simp add: instance_uuids_def fetched_instances_def env_example_def mk_hypervisor_def
        mk_server_def)
  have e: "dom (nodes (ModelRoot 0)) = {} \<and> dom (instances (ModelRoot 0)) = {} \<and>
      dom (mapping (ModelRoot 0)) = {}"
    by (simp add: ModelRoot_def)
  from consistent_hosts_build [OF m r h g2 o c]
  obtain st' m' where a: "add_physical_layer env_example gpu_builder = Inr st'"
    and ms: "model st' = Some m'"
    and hn: "dom (nodes m') = dom (nodes (ModelRoot 0)) \<union>
      host_uuids env_example (set [''h1'', ''h2''] - {''h2''})"
    and hi: "dom (instances m') = dom (instances (ModelRoot 0)) \<union>
      instance_uuids env_example (set [''h1'', ''h2''] - {''h2''})"
    and hp: "dom (mapping m') = dom (mapping (ModelRoot 0)) \<union>
      instance_uuids env_example (set [''h1'', ''h2''] - {''h2''})"
    by (elim exE conjE) iprover
  have "dom (nodes m') = {''h1''}" and "dom (instances m') = {''i1''}"
    and "dom (mapping m') = {''i1''}"
    by (simp_all only: hn hi hp s hu iu e Un_empty_left)
  with a ms
  have "\<exists>st' m'. add_physical_layer env_example gpu_builder = Inr st' \<and> model st' = Some m' \<and>
      dom (nodes m') = {''h1''} \<and> dom (instances m') = {''i1''} \<and>
      dom (mapping m') = {''i1''}"
    by (intro exI conjI)
  with m r g2 g1 c1 c2 show ?thesis
    by (simp only: simp_thms)
qed

text \<open>
  C6. The stored scope is the aggregate gpu-pool, which resolves to the hosts h1 and
  h2. The search for h2 yields no hypervisor and the search for h1 yields one, which
  lists the instance i1; the instance reports no host. The host h2 is skipped, but the
  physical layer is not built: the lookup of the host of i1 in \<open>add_instance_node\<close>
  raises \<open>ComputeNodeNotFound\<close>, which nothing catches, so the build of the remaining
  host ends in an error and no model with h1 and its instance is returned.
\<close>

theorem missing_host_build_raises:
  "resolve_compute_nodes env_unhosted gpu_builder =
     Inr ([''h1'', ''h2''], call GetAggregateList gpu_builder) \<and>
   get_compute_node_by_name env_unhosted ''h2'' = [] \<and>
   get_compute_node_by_name env_unhosted ''h1'' = [mk_hypervisor 1 ''h1'' (Some [''i1''])] \<and>
   find_instance env_unhosted ''i1'' = Some (mk_server ''i1'' None) \<and>
   add_physical_layer env_unhosted gpu_builder = Inl ComputeNodeNotFound"
proof -
  have r: "resolve_compute_nodes env_unhosted gpu_builder =
     Inr ([''h1'', ''h2''], call GetAggregateList gpu_builder)"
    by (simp add: resolve_compute_nodes_def gpu_builder_def env_unhosted_def env_example_def
        collect_aggregates_def name_item_def call_def Let_def)
  have g2: "get_compute_node_by_name env_unhosted ''h2'' = []"
    by (simp add: env_unhosted_def env_example_def)
  have g1: "get_compute_node_by_name env_unhosted ''h1'' =
      [mk_hypervisor 1 ''h1'' (Some [''i1''])]"
    by (simp add: env_unhosted_def env_example_def)
  have f: "find_instance env_unhosted ''i1'' = Some (mk_server ''i1'' None)"
    by (simp add: env_unhosted_def env_example_def)
  have "add_physical_layer env_unhosted gpu_builder =
      add_compute_nodes env_unhosted [''h1'', ''h2''] (call GetAggregateList gpu_builder)"
    by (simp add: add_physical_layer_def r)
  also have "\<dots> = Inl ComputeNodeNotFound"
    by (simp add: g1 f add_compute_node_def add_instance_node_def gpu_builder_def call_def
        get_node_by_uuid_def mk_hypervisor_def mk_server_def Let_def)
  finally have a: "add_physical_layer env_unhosted gpu_builder = Inl ComputeNodeNotFound" .
  from r g2 g1 f a show ?thesis
    by (simp only: simp_thms)
qed

end
